theory Spec2Isabelle
  imports Complex_Main
begin

section \<open>PlaceholderImage.tsx\<close>

text \<open>
  The component takes four optional props and returns one \<open>svg\<close> element. An absent prop
  is \<open>None\<close>; the destructuring defaults of the parameter list fill it in. JavaScript numbers
  are modelled as \<open>real\<close>. The \<open>viewBox\<close> attribute is a template literal over the two
  numbers; the number-to-string conversion of the language is the parameter \<open>numToString\<close>.
\<close>

record placeholderProps =
  ph_width :: "real option"
  ph_height :: "real option"
  ph_color :: "string option"
  ph_text :: "string option"

record svg =
  svg_width :: real
  svg_height :: real
  svg_xmlns :: string
  svg_viewBox :: string
  rect_width :: string
  rect_height :: string
  rect_fill :: string
  text_x :: string
  text_y :: string
  text_textAnchor :: string
  text_dominantBaseline :: string
  text_fill :: string
  text_fontSize :: string
  text_fontFamily :: string
  text_children :: string

definition default_to :: "'a \<Rightarrow> 'a option \<Rightarrow> 'a" where
  "default_to d v = (case v of None \<Rightarrow> d | Some a \<Rightarrow> a)"

definition PlaceholderImage :: "(real \<Rightarrow> string) \<Rightarrow> placeholderProps \<Rightarrow> svg" where
  "PlaceholderImage numToString props =
     (let width = default_to 800 (ph_width props);
          height = default_to 600 (ph_height props);
          color = default_to ''3498db'' (ph_color props);
          text = default_to ''Image'' (ph_text props)
      in \<lparr> svg_width = width,
           svg_height = height,
           svg_xmlns = ''http://www.w3.org/2000/svg'',
           svg_viewBox = ''0 0 '' @ numToString width @ '' '' @ numToString height,
           rect_width = ''100%'',
           rect_height = ''100%'',
           rect_fill = ''#'' @ color,
           text_x = ''50%'',
           text_y = ''50%'',
           text_textAnchor = ''middle'',
           text_dominantBaseline = ''middle'',
           text_fill = ''white'',
           text_fontSize = ''24'',
           text_fontFamily = ''Arial, sans-serif'',
           text_children = text \<rparr>)"

text \<open>The call with no arguments: every prop absent.\<close>

definition no_arguments :: placeholderProps where
  "no_arguments = \<lparr> ph_width = None, ph_height = None, ph_color = None, ph_text = None \<rparr>"

section \<open>Banner.tsx: data\<close>

text \<open>
  JavaScript numbers are modelled as \<open>real\<close> where they are coordinates, angles and
  factors, and as \<open>int\<close> where they are timestamps, indices and counts. The arithmetic
  that places an image (lines 41 to 45, 53, 54, 106 and 107) rounds each result to
  binary64, as defined below; the product inside the array index of lines 69 and 110 and
  the arithmetic of the rendering are exact. The id template literals print integers in
  decimal.
\<close>

definition digit_char :: "nat \<Rightarrow> char" where
  "digit_char d = ''0123456789'' ! d"

fun digits :: "nat \<Rightarrow> string" where
  "digits n = (if n < 10 then [digit_char n] else digits (n div 10) @ [digit_char (n mod 10)])"

declare digits.simps [simp del]

definition intToString :: "int \<Rightarrow> string" where
  "intToString n = (if n < 0 then CHR ''-'' # digits (nat (- n)) else digits (nat n))"

record bannerProps =
  images :: "string list"
  altText :: "string option"
  autoRotateMs :: "real option"

text \<open>
  \<open>FloatingImage\<close>. The field \<open>src\<close> is read from the array by index; a read out of range
  gives \<open>undefined\<close> in JavaScript, which is \<open>None\<close> here.
\<close>

record floatingImage =
  img_id :: string
  img_src :: "string option"
  img_x :: real
  img_y :: real
  img_rotation :: real
  img_scale :: real
  img_zIndex :: int

text \<open>The result of \<open>getRandomImageProps\<close>: a floating image without \<open>id\<close> and \<open>src\<close>.\<close>

record imageProps =
  p_x :: real
  p_y :: real
  p_rotation :: real
  p_scale :: real
  p_zIndex :: int

text \<open>
  Timers of the event loop. A pending timer has the handle \<open>setTimeout\<close> returned, the
  time on the event-loop clock at which it is due, and its callback. The component creates
  two kinds of callback: the retirement of line 87 and the clear of line 96.
\<close>

datatype callback = Retire | ClearAll

record timer =
  handle :: nat
  due :: nat
  callback :: callback

text \<open>
  The state of a mounted component and of its environment: the two \<open>useState\<close> cells, the
  three refs (\<open>containerRef\<close> is \<open>True\<close> when \<open>containerRef.current\<close> is an element), the
  event-loop clock in milliseconds with the pending timers, and the number of values
  \<open>Math.random\<close> has returned so far.
\<close>

record state =
  floatingImages :: "floatingImage list"
  mousePosition :: "real \<times> real"
  containerRef :: bool
  imageCounter :: int
  cleanupTimer :: "nat option"
  clock :: nat
  timers :: "timer list"
  nextHandle :: nat
  randPos :: nat

record domRect =
  rect_left :: real
  rect_top :: real

datatype error = TypeError

text \<open>
  What can happen to a mounted component. A pointer-move carries \<open>clientX\<close>, \<open>clientY\<close>, the
  rectangle \<open>getBoundingClientRect\<close> returns and the value \<open>Date.now\<close> returns while the
  handler runs; a touch-move carries the \<open>clientX\<close>, \<open>clientY\<close> of each entry of
  \<open>touches\<close> instead. \<open>Elapse d\<close> lets \<open>d\<close> milliseconds pass on the event-loop clock.
  These are the events of the mounted lifetime; unmounting ends it.
\<close>

datatype event =
    MouseMove real real domRect int
  | MouseLeave
  | TouchMove "(real \<times> real) list" domRect int
  | Elapse nat

section \<open>JavaScript numbers\<close>

text \<open>
  A JavaScript number is a binary64 floating-point number, and each arithmetic operation
  returns the binary64 number nearest to the exact result, the one with an even
  significand when two are equally near. A finite number is modelled as the \<open>real\<close> it
  denotes, and \<open>fl64\<close> is that rounding. The format ends below \<open>2 ^ 1024\<close>: an exact
  result of magnitude \<open>2 ^ 1024 - 2 ^ 970\<close> or more is an infinity in JavaScript, which
  this model does not represent; \<open>finite64\<close> says that a result is below that threshold.
\<close>

text \<open>
  The nearest integer, the even one of the two when \<open>x\<close> lies halfway.
\<close>

definition round_even :: "real \<Rightarrow> int" where
  "round_even x =
     (let n = \<lfloor>x\<rfloor>; d = x - of_int n
      in if d < 1 / 2 then n
         else if 1 / 2 < d then n + 1
         else if even n then n else n + 1)"

text \<open>
  The binary exponent of a positive number: the \<open>e\<close> with \<open>2 ^ e \<le> x < 2 ^ (e + 1)\<close>,
  found by halving or doubling.
\<close>

function ilog2 :: "real \<Rightarrow> int" where
  "ilog2 x =
     (if 2 \<le> x then ilog2 (x / 2) + 1
      else if 0 < x \<and> x < 1 then ilog2 (x * 2) - 1
      else 0)"
  by pat_completeness auto
termination
proof (relation "measure (\<lambda>x. if 2 \<le> x then nat \<lfloor>x\<rfloor>
                                else if 0 < x \<and> x < 1 then nat \<lceil>1 / x\<rceil> else 0)")
  show "wf (measure (\<lambda>x::real. if 2 \<le> x then nat \<lfloor>x\<rfloor>
                                else if 0 < x \<and> x < 1 then nat \<lceil>1 / x\<rceil> else 0))"
    by simp
next
  fix x :: real
  assume x: "2 \<le> x"
  have "\<lfloor>x / 2\<rfloor> < \<lfloor>x\<rfloor>"
  proof -
    have "x / 2 < of_int \<lfloor>x\<rfloor>"
      using x by linarith
    then show ?thesis
      by (simp add: floor_less_iff)
  qed
  moreover have "0 < \<lfloor>x\<rfloor>"
    using x by linarith
  ultimately show "(x / 2, x) \<in> measure (\<lambda>x. if 2 \<le> x then nat \<lfloor>x\<rfloor>
                                else if 0 < x \<and> x < 1 then nat \<lceil>1 / x\<rceil> else 0)"
    using x by auto
next
  fix x :: real
  assume "\<not> 2 \<le> x" and x: "0 < x \<and> x < 1"
  have big: "1 < 1 / x"
    using x by simp
  then have c: "2 \<le> \<lceil>1 / x\<rceil>"
    by linarith
  have "\<lceil>1 / (x * 2)\<rceil> < \<lceil>1 / x\<rceil>" if "x * 2 < 1"
  proof -
    have "1 / (x * 2) = (1 / x) / 2"
      by simp
    also have "\<dots> \<le> of_int \<lceil>1 / x\<rceil> / 2"
      by (simp add: divide_right_mono)
    also have "\<dots> \<le> of_int (\<lceil>1 / x\<rceil> - 1)"
      using c by simp
    finally show ?thesis
      by (simp add: ceiling_less_iff)
  qed
  with c x show "(x * 2, x) \<in> measure (\<lambda>x. if 2 \<le> x then nat \<lfloor>x\<rfloor>
                                else if 0 < x \<and> x < 1 then nat \<lceil>1 / x\<rceil> else 0)"
    by auto
qed

declare ilog2.simps [simp del]

text \<open>
  The exponent of the unit in the last place of the binary64 numbers around \<open>x\<close>: 52
  below the binary exponent, and never below the subnormal unit \<open>2 ^ - 1074\<close>.
\<close>

definition quantum :: "real \<Rightarrow> int" where
  "quantum x = (if x = 0 then - 1074 else max (ilog2 \<bar>x\<bar> - 52) (- 1074))"

text \<open>The result of an arithmetic operation whose exact value is \<open>x\<close>.\<close>

definition fl64 :: "real \<Rightarrow> real" where
  "fl64 x = of_int (round_even (x / 2 powi quantum x)) * 2 powi quantum x"


section \<open>Banner.tsx: operations\<close>

text \<open>
  \<open>Math.random\<close> is a source of numbers read in order: the \<open>n\<close>-th call returns \<open>rng n\<close>.
  The language promises each value to lie in \<open>[0, 1)\<close>.
\<close>

type_synonym rng = "nat \<Rightarrow> real"


definition Math_random :: "rng \<Rightarrow> state \<Rightarrow> real \<times> state" where
  "Math_random rng st = (rng (randPos st), st\<lparr>randPos := Suc (randPos st)\<rparr>)"

text \<open>
  \<open>xs.slice(-n)\<close> for a positive \<open>n\<close>: the last \<open>n\<close> elements, all of \<open>xs\<close> when it
  has fewer. The component calls it with 12, 6 and 3.
\<close>

definition slice_last :: "nat \<Rightarrow> 'a list \<Rightarrow> 'a list" where
  "slice_last n xs = (if length xs \<le> n then xs else drop (length xs - n) xs)"

text \<open>\<open>xs[k]\<close> for an integer \<open>k\<close>: \<open>undefined\<close> out of range.\<close>

definition array_get :: "'a list \<Rightarrow> int \<Rightarrow> 'a option" where
  "array_get xs k = (if 0 \<le> k \<and> k < int (length xs) then Some (xs ! nat k) else None)"

definition setTimeout :: "callback \<Rightarrow> nat \<Rightarrow> state \<Rightarrow> nat \<times> state" where
  "setTimeout cb delay st =
     (nextHandle st,
      st\<lparr>timers := timers st @ [\<lparr>handle = nextHandle st, due = clock st + delay, callback = cb\<rparr>],
         nextHandle := Suc (nextHandle st)\<rparr>)"

definition clearTimeout :: "nat \<Rightarrow> state \<Rightarrow> state" where
  "clearTimeout h st = st\<lparr>timers := filter (\<lambda>t. handle t \<noteq> h) (timers st)\<rparr>"

text \<open>
  Lines 37 to 46. The literals 0.5, 100, 12 and 15 are binary64 numbers; 0.9 and 0.3 are
  not, and denote the binary64 numbers nearest to them.
\<close>

definition getRandomImageProps :: "rng \<Rightarrow> real \<Rightarrow> real \<Rightarrow> state \<Rightarrow> imageProps \<times> state" where
  "getRandomImageProps rng x y st =
     (case Math_random rng st of (r1, st1) \<Rightarrow>
      case Math_random rng st1 of (r2, st2) \<Rightarrow>
      case Math_random rng st2 of (r3, st3) \<Rightarrow>
      case Math_random rng st3 of (r4, st4) \<Rightarrow>
      case Math_random rng st4 of (r5, st5) \<Rightarrow>
        (\<lparr> p_x = fl64 (x + fl64 (fl64 (r1 - 0.5) * 100)),
            p_y = fl64 (y + fl64 (fl64 (r2 - 0.5) * 100)),
            p_rotation = fl64 (fl64 (r3 - 0.5) * 12),
            p_scale = fl64 (fl64 0.9 + fl64 (r4 * fl64 0.3)),
            p_zIndex = \<lfloor>fl64 (r5 * 15)\<rfloor> \<rparr>, st5))"

definition mkImage :: "string \<Rightarrow> string option \<Rightarrow> imageProps \<Rightarrow> floatingImage" where
  "mkImage ident source props =
     \<lparr> img_id = ident, img_src = source,
       img_x = p_x props, img_y = p_y props, img_rotation = p_rotation props,
       img_scale = p_scale props, img_zIndex = p_zIndex props \<rparr>"

text \<open>One pass through the body of the loop of lines 67 to 80, for the index \<open>i\<close>.\<close>

definition spawn_one ::
  "string list \<Rightarrow> rng \<Rightarrow> int \<Rightarrow> real \<Rightarrow> real \<Rightarrow> nat \<Rightarrow> state \<Rightarrow> state" where
  "spawn_one memoizedImages rng now x y i st =
     (case Math_random rng st of (r, st1) \<Rightarrow>
      case getRandomImageProps rng x y st1 of (props, st2) \<Rightarrow>
        let randomImage = array_get memoizedImages \<lfloor>r * real (length memoizedImages)\<rfloor>;
            newImage = mkImage (''img-'' @ intToString now @ ''-'' @ intToString (int i))
                         randomImage props
        in st2\<lparr>floatingImages := slice_last 12 (floatingImages st2 @ [newImage])\<rparr>)"

function spawn_loop ::
  "string list \<Rightarrow> rng \<Rightarrow> int \<Rightarrow> real \<Rightarrow> real \<Rightarrow> nat \<Rightarrow> nat \<Rightarrow> state \<Rightarrow> state" where
  "spawn_loop memoizedImages rng now x y i numImages st =
     (if i < numImages
      then spawn_loop memoizedImages rng now x y (Suc i) numImages
             (spawn_one memoizedImages rng now x y i st)
      else st)"
  by pat_completeness auto
termination
  by (relation "measure (\<lambda>(memoizedImages, rng, now, x, y, i, numImages, st). numImages - i)") auto

declare spawn_loop.simps [simp del]

definition onMouseMove ::
  "string list \<Rightarrow> rng \<Rightarrow> real \<Rightarrow> real \<Rightarrow> domRect \<Rightarrow> int \<Rightarrow> state \<Rightarrow> state" where
  "onMouseMove memoizedImages rng clientX clientY rect now st =
     (if \<not> containerRef st then st
      else
        let x = fl64 (clientX - rect_left rect);
            y = fl64 (clientY - rect_top rect);
            st1 = st\<lparr>mousePosition := (x, y)\<rparr>
        in if now - imageCounter st1 < 80 then st1
           else
             let st2 = st1\<lparr>imageCounter := now\<rparr>
             in case Math_random rng st2 of (r, st3) \<Rightarrow>
                  let numImages = (if r > 0.8 then 2 else 1 :: nat);
                      st4 = spawn_loop memoizedImages rng now x y 0 numImages st3;
                      st5 = (case cleanupTimer st4 of
                               Some h \<Rightarrow> clearTimeout h st4
                             | None \<Rightarrow> st4)
                  in case setTimeout Retire 500 st5 of (h, st6) \<Rightarrow>
                       st6\<lparr>cleanupTimer := Some h\<rparr>)"

definition onMouseLeave :: "state \<Rightarrow> state" where
  "onMouseLeave st = snd (setTimeout ClearAll 200 st)"

text \<open>
  \<open>onTouch\<close> reads \<open>e.touches[0]\<close> and then a field of it: with no entry in \<open>touches\<close> the
  read of \<open>clientX\<close> throws, before any state is written.
\<close>

definition onTouch ::
  "string list \<Rightarrow> rng \<Rightarrow> (real \<times> real) list \<Rightarrow> domRect \<Rightarrow> int \<Rightarrow> state \<Rightarrow> error + state" where
  "onTouch memoizedImages rng touches rect now st =
     (if \<not> containerRef st then Inr st
      else
        case touches of
          [] \<Rightarrow> Inl TypeError
        | (clientX, clientY) # _ \<Rightarrow>
            let x = fl64 (clientX - rect_left rect);
                y = fl64 (clientY - rect_top rect)
            in case Math_random rng st of (r, st1) \<Rightarrow>
               case getRandomImageProps rng x y st1 of (props, st2) \<Rightarrow>
                 let randomImage = array_get memoizedImages \<lfloor>r * real (length memoizedImages)\<rfloor>;
                     newImage = mkImage (''touch-'' @ intToString now) randomImage props
                 in Inr (st2\<lparr>floatingImages := slice_last 3 (floatingImages st2) @ [newImage]\<rparr>))"

text \<open>The cleanup of the effect of lines 123 to 129, run when the component unmounts.\<close>

definition onUnmount :: "state \<Rightarrow> state" where
  "onUnmount st = (case cleanupTimer st of Some h \<Rightarrow> clearTimeout h st | None \<Rightarrow> st)"

text \<open>The two timer callbacks, lines 87 and 96.\<close>

fun fire :: "callback \<Rightarrow> state \<Rightarrow> state" where
  "fire Retire st = st\<lparr>floatingImages := slice_last 6 (floatingImages st)\<rparr>"
| "fire ClearAll st = st\<lparr>floatingImages := []\<rparr>"

primrec fire_all :: "timer list \<Rightarrow> state \<Rightarrow> state" where
  "fire_all [] st = st"
| "fire_all (tm # tms) st = fire_all tms (fire (callback tm) st)"

text \<open>
  The event loop lets \<open>d\<close> milliseconds pass: the timers that are due by then leave the
  pending list and their callbacks run, earliest first, in the order they were set when
  two are due at the same time.
\<close>

definition elapse :: "nat \<Rightarrow> state \<Rightarrow> state" where
  "elapse d st =
     (let t = clock st + d;
          ready = sort_key due (filter (\<lambda>tm. due tm \<le> t) (timers st));
          waiting = filter (\<lambda>tm. \<not> due tm \<le> t) (timers st)
      in fire_all ready (st\<lparr>clock := t, timers := waiting\<rparr>))"

section \<open>Banner.tsx: rendering\<close>

datatype loading = Eager | Lazy

record floatingView =
  v_key :: string
  v_left :: real
  v_top :: real
  v_rotate :: real
  v_scale :: real
  v_zIndex :: int
  v_opacity :: real
  v_src :: "string option"
  v_alt :: string
  v_loading :: loading
  v_priority :: bool

text \<open>
  The rendered container: the element that carries the three event handlers, with its
  label, the title, one child for each floating image and the cursor marker.
\<close>

record view =
  aria_label :: string
  title :: string
  floating :: "floatingView list"
  cursor_left :: real
  cursor_top :: real

definition renderFloating :: "string \<Rightarrow> nat \<times> floatingImage \<Rightarrow> floatingView" where
  "renderFloating alt = (\<lambda>(index, img).
     \<lparr> v_key = img_id img,
       v_left = img_x img - 80,
       v_top = img_y img - 60,
       v_rotate = img_rotation img,
       v_scale = img_scale img,
       v_zIndex = img_zIndex img + int index,
       v_opacity = max 0.15 (1 - real index * 0.08),
       v_src = img_src img,
       v_alt = alt,
       v_loading = (if index < 2 then Eager else Lazy),
       v_priority = (index < 2) \<rparr>)"

text \<open>The component's result: \<open>None\<close> is the \<open>null\<close> of line 131.\<close>

definition render :: "bannerProps \<Rightarrow> state \<Rightarrow> view option" where
  "render props st =
     (let alt = default_to ''banner'' (altText props);
          autoRotate = default_to 6000 (autoRotateMs props)
      in if length (images props) = 0 then None
         else Some \<lparr> aria_label = alt,
                     title = ''Noggles Board'',
                     floating = map (renderFloating alt) (List.enumerate 0 (floatingImages st)),
                     cursor_left = fst (mousePosition st) - 2,
                     cursor_top = snd (mousePosition st) - 2 \<rparr>)"

section \<open>Banner.tsx: the mounted component\<close>

text \<open>
  The first render. The refs and state cells take their initial values; the container
  element exists, and \<open>containerRef\<close> points to it, when the component rendered one.
  Timer handles of the browser start at 1.
\<close>

definition mount :: "bannerProps \<Rightarrow> state" where
  "mount props =
     \<lparr> floatingImages = [],
       mousePosition = (0, 0),
       containerRef = (length (images props) \<noteq> 0),
       imageCounter = 0,
       cleanupTimer = None,
       clock = 0,
       timers = [],
       nextHandle = 1,
       randPos = 0 \<rparr>"

text \<open>
  One event. The handlers are props of the container element, so a pointer or touch event
  reaches a handler only when the component rendered the container. An exception thrown by
  a handler leaves the state as it was.
\<close>

definition step :: "bannerProps \<Rightarrow> rng \<Rightarrow> state \<Rightarrow> event \<Rightarrow> state" where
  "step props rng st ev =
     (case ev of
        Elapse d \<Rightarrow> elapse d st
      | _ \<Rightarrow>
        (case render props st of
           None \<Rightarrow> st
         | Some _ \<Rightarrow>
           (case ev of
              MouseMove clientX clientY rect now \<Rightarrow>
                onMouseMove (images props) rng clientX clientY rect now st
            | MouseLeave \<Rightarrow> onMouseLeave st
            | TouchMove touches rect now \<Rightarrow>
                (case onTouch (images props) rng touches rect now st of
                   Inl _ \<Rightarrow> st
                 | Inr st' \<Rightarrow> st')
            | Elapse d \<Rightarrow> elapse d st)))"

definition run :: "bannerProps \<Rightarrow> rng \<Rightarrow> event list \<Rightarrow> state \<Rightarrow> state" where
  "run props rng evs st = foldl (step props rng) st evs"

section \<open>Notions used in the statements\<close>

text \<open>
  A pointer-move is accepted in a state when it passes the three guards before the spawn:
  the component rendered its container (line 131), the ref is set (line 50), and at least
  80 ms lie between the value of \<open>Date.now\<close> and the counter (line 61).
\<close>

definition accepted :: "bannerProps \<Rightarrow> state \<Rightarrow> event \<Rightarrow> bool" where
  "accepted props st ev =
     (case ev of
        MouseMove clientX clientY rect now \<Rightarrow>
          render props st \<noteq> None \<and> containerRef st \<and> \<not> now - imageCounter st < 80
      | _ \<Rightarrow> False)"

text \<open>The time that passes during a list of events.\<close>

fun elapsed :: "event list \<Rightarrow> nat" where
  "elapsed [] = 0"
| "elapsed (Elapse d # evs) = d + elapsed evs"
| "elapsed (_ # evs) = elapsed evs"


text \<open>Events of a touch-only session: touch-moves, and time passing between them.\<close>

fun touch_only :: "event \<Rightarrow> bool" where
  "touch_only (TouchMove touches rect now) = True"
| "touch_only (Elapse d) = True"
| "touch_only _ = False"




text \<open>Events that are not touch-moves.\<close>

fun no_touch :: "event \<Rightarrow> bool" where
  "no_touch (TouchMove touches rect now) = False"
| "no_touch _ = True"

text \<open>The id template literal of line 71.\<close>

definition pointer_id :: "int \<Rightarrow> nat \<Rightarrow> string" where
  "pointer_id now i = ''img-'' @ intToString now @ ''-'' @ intToString (int i)"

section \<open>Properties of the operations\<close>

subsection \<open>Rounding to binary64\<close>




















lemma fl64_0: "fl64 0 = 0"
  by (simp add: fl64_def round_even_def)















subsection \<open>The handlers\<close>

lemma length_slice_last: "length (slice_last n xs) = min n (length xs)"
  by (simp add: slice_last_def)

lemma set_slice_last: "set (slice_last n xs) \<subseteq> set xs"
  by (auto simp: slice_last_def dest: in_set_dropD)

lemma slice_last_append_slice: "slice_last n (slice_last n xs @ ys) = slice_last n (xs @ ys)"
  by (simp add: slice_last_def add.commute)

lemma slice_last_Nil: "slice_last n [] = []"
  by (simp add: slice_last_def)

lemma getRandomImageProps_eq:
  "getRandomImageProps rng x y st =
     (\<lparr> p_x = fl64 (x + fl64 (fl64 (rng (randPos st) - 0.5) * 100)),
        p_y = fl64 (y + fl64 (fl64 (rng (Suc (randPos st)) - 0.5) * 100)),
        p_rotation = fl64 (fl64 (rng (Suc (Suc (randPos st))) - 0.5) * 12),
        p_scale = fl64 (fl64 0.9 + fl64 (rng (Suc (Suc (Suc (randPos st)))) * fl64 0.3)),
        p_zIndex = \<lfloor>fl64 (rng (Suc (Suc (Suc (Suc (randPos st))))) * 15)\<rfloor> \<rparr>,
      st\<lparr>randPos := randPos st + 5\<rparr>)"
  by (simp add: getRandomImageProps_def Math_random_def)

lemma spawn_one_eq:
  "spawn_one imgs rng now x y i st =
     st\<lparr>randPos := randPos st + 6,
        floatingImages := slice_last 12 (floatingImages st @
          [mkImage (''img-'' @ intToString now @ ''-'' @ intToString (int i))
             (array_get imgs \<lfloor>rng (randPos st) * real (length imgs)\<rfloor>)
             (fst (getRandomImageProps rng x y (st\<lparr>randPos := Suc (randPos st)\<rparr>)))])\<rparr>"
  by (simp add: spawn_one_def Math_random_def getRandomImageProps_eq Let_def)

lemma spawn_loop_frame:
  "mousePosition (spawn_loop imgs rng now x y i n st) = mousePosition st
   \<and> containerRef (spawn_loop imgs rng now x y i n st) = containerRef st
   \<and> imageCounter (spawn_loop imgs rng now x y i n st) = imageCounter st
   \<and> cleanupTimer (spawn_loop imgs rng now x y i n st) = cleanupTimer st
   \<and> clock (spawn_loop imgs rng now x y i n st) = clock st
   \<and> timers (spawn_loop imgs rng now x y i n st) = timers st
   \<and> nextHandle (spawn_loop imgs rng now x y i n st) = nextHandle st"
proof (induction imgs rng now x y i n st rule: spawn_loop.induct)
  case (1 imgs rng now x y i n st)
  show ?case
  proof (cases "i < n")
    case True
    with 1 show ?thesis
      by (simp add: spawn_loop.simps[of imgs rng now x y i n st] spawn_one_eq)
  next
    case False
    then show ?thesis
      by (simp add: spawn_loop.simps[of imgs rng now x y i n st])
  qed
qed



lemma onMouseMove_no_container:
  "\<not> containerRef st \<Longrightarrow> onMouseMove imgs rng cx cy rect now st = st"
  by (simp add: onMouseMove_def)

lemma onMouseMove_rejected:
  "containerRef st \<Longrightarrow> now - imageCounter st < 80 \<Longrightarrow>
   onMouseMove imgs rng cx cy rect now st
     = st\<lparr>mousePosition := (fl64 (cx - rect_left rect), fl64 (cy - rect_top rect))\<rparr>"
  by (simp add: onMouseMove_def Let_def)

lemma onMouseMove_accepted:
  assumes "containerRef st" and "\<not> now - imageCounter st < 80"
  shows "onMouseMove imgs rng cx cy rect now st =
           (spawn_loop imgs rng now (fl64 (cx - rect_left rect)) (fl64 (cy - rect_top rect)) 0
              (if rng (randPos st) > 0.8 then 2 else 1)
              (st\<lparr>mousePosition := (fl64 (cx - rect_left rect), fl64 (cy - rect_top rect)),
                 imageCounter := now, randPos := Suc (randPos st)\<rparr>))
            \<lparr>timers := filter (\<lambda>t. Some (handle t) \<noteq> cleanupTimer st) (timers st)
                        @ [\<lparr>handle = nextHandle st, due = clock st + 500, callback = Retire\<rparr>],
              nextHandle := Suc (nextHandle st),
              cleanupTimer := Some (nextHandle st)\<rparr>"
proof (cases "cleanupTimer st")
  case None
  with assms show ?thesis
    by (simp add: onMouseMove_def Let_def Math_random_def setTimeout_def spawn_loop_frame)
next
  case (Some h)
  with assms show ?thesis
    by (simp add: onMouseMove_def Let_def Math_random_def setTimeout_def clearTimeout_def
          spawn_loop_frame)
qed

lemma onTouch_Cons:
  "containerRef st \<Longrightarrow>
   onTouch imgs rng ((cx, cy) # rest) rect now st =
     Inr (st\<lparr>randPos := randPos st + 6,
             floatingImages := slice_last 3 (floatingImages st) @
               [mkImage (''touch-'' @ intToString now)
                  (array_get imgs \<lfloor>rng (randPos st) * real (length imgs)\<rfloor>)
                  (fst (getRandomImageProps rng (fl64 (cx - rect_left rect)) (fl64 (cy - rect_top rect))
                     (st\<lparr>randPos := Suc (randPos st)\<rparr>)))]\<rparr>)"
  by (simp add: onTouch_def Math_random_def getRandomImageProps_eq Let_def)

lemma onMouseLeave_eq:
  "onMouseLeave st =
     st\<lparr>timers := timers st @ [\<lparr>handle = nextHandle st, due = clock st + 200, callback = ClearAll\<rparr>],
        nextHandle := Suc (nextHandle st)\<rparr>"
  by (simp add: onMouseLeave_def setTimeout_def)

lemma fire_eq:
  "fire cb st = st\<lparr>floatingImages := (case cb of Retire \<Rightarrow> slice_last 6 (floatingImages st) | ClearAll \<Rightarrow> [])\<rparr>"
  by (cases cb) simp_all

lemma fire_all_frame:
  "mousePosition (fire_all tms st) = mousePosition st
   \<and> containerRef (fire_all tms st) = containerRef st
   \<and> imageCounter (fire_all tms st) = imageCounter st
   \<and> cleanupTimer (fire_all tms st) = cleanupTimer st
   \<and> clock (fire_all tms st) = clock st
   \<and> timers (fire_all tms st) = timers st
   \<and> nextHandle (fire_all tms st) = nextHandle st
   \<and> randPos (fire_all tms st) = randPos st"
  by (induction tms arbitrary: st) (simp_all add: fire_eq)

lemma fire_all_length:
  "length (floatingImages (fire_all tms st)) \<le> length (floatingImages st)"
proof (induction tms arbitrary: st)
  case Nil
  show ?case by simp
next
  case (Cons tm tms)
  have "length (floatingImages (fire (callback tm) st)) \<le> length (floatingImages st)"
    by (cases "callback tm") (simp_all add: length_slice_last)
  with Cons[of "fire (callback tm) st"] show ?case
    by simp
qed

lemma fire_all_set:
  "set (floatingImages (fire_all tms st)) \<subseteq> set (floatingImages st)"
proof (induction tms arbitrary: st)
  case Nil
  show ?case by simp
next
  case (Cons tm tms)
  have "set (floatingImages (fire (callback tm) st)) \<subseteq> set (floatingImages st)"
    using set_slice_last[of 6 "floatingImages st"] by (cases "callback tm") simp_all
  with Cons[of "fire (callback tm) st"] show ?case
    by auto
qed


lemma fire_all_ClearAll:
  "tm \<in> set tms \<Longrightarrow> callback tm = ClearAll \<Longrightarrow> floatingImages (fire_all tms st) = []"
proof (induction tms arbitrary: st)
  case Nil
  then show ?case by simp
next
  case (Cons a tms)
  show ?case
  proof (cases "a = tm")
    case True
    have "length (floatingImages (fire_all tms (fire (callback a) st)))
            \<le> length (floatingImages (fire (callback a) st))"
      by (rule fire_all_length)
    also have "\<dots> = 0"
      using True Cons.prems(2) by simp
    finally show ?thesis by simp
  next
    case False
    with Cons show ?thesis by simp
  qed
qed

lemma elapse_frame:
  "mousePosition (elapse d st) = mousePosition st
   \<and> containerRef (elapse d st) = containerRef st
   \<and> imageCounter (elapse d st) = imageCounter st
   \<and> cleanupTimer (elapse d st) = cleanupTimer st
   \<and> clock (elapse d st) = clock st + d
   \<and> timers (elapse d st) = filter (\<lambda>tm. \<not> due tm \<le> clock st + d) (timers st)
   \<and> nextHandle (elapse d st) = nextHandle st
   \<and> randPos (elapse d st) = randPos st"
  by (simp add: elapse_def Let_def fire_all_frame)

lemma elapse_length:
  "length (floatingImages (elapse d st)) \<le> length (floatingImages st)"
  using fire_all_length[of _ "st\<lparr>clock := clock st + d, timers := filter (\<lambda>tm. \<not> due tm \<le> clock st + d) (timers st)\<rparr>"]
  by (simp add: elapse_def Let_def)

lemma elapse_set:
  "set (floatingImages (elapse d st)) \<subseteq> set (floatingImages st)"
  using fire_all_set[of _ "st\<lparr>clock := clock st + d, timers := filter (\<lambda>tm. \<not> due tm \<le> clock st + d) (timers st)\<rparr>"]
  by (simp add: elapse_def Let_def)


lemma elapse_ClearAll:
  "tm \<in> set (timers st) \<Longrightarrow> callback tm = ClearAll \<Longrightarrow> due tm \<le> clock st + d \<Longrightarrow>
   floatingImages (elapse d st) = []"
  by (simp add: elapse_def Let_def fire_all_ClearAll[of tm])


lemma render_None_iff: "render p st = None \<longleftrightarrow> images p = []"
  by (simp add: render_def Let_def)

lemma step_Elapse: "step p rng st (Elapse d) = elapse d st"
  by (simp add: step_def)

lemma step_MouseLeave:
  "step p rng st MouseLeave = (if images p = [] then st else onMouseLeave st)"
  by (simp add: step_def render_def Let_def)

lemma step_MouseMove:
  "step p rng st (MouseMove cx cy rect now) =
     (if images p = [] then st else onMouseMove (images p) rng cx cy rect now st)"
  by (simp add: step_def render_def Let_def)

lemma step_TouchMove:
  "step p rng st (TouchMove touches rect now) =
     (if images p = [] then st
      else case onTouch (images p) rng touches rect now st of Inl e \<Rightarrow> st | Inr st' \<Rightarrow> st')"
  by (simp add: step_def render_def Let_def)

lemma accepted_MouseMove:
  "accepted p st (MouseMove cx cy rect now)
     \<longleftrightarrow> images p \<noteq> [] \<and> containerRef st \<and> \<not> now - imageCounter st < 80"
  by (simp add: accepted_def render_None_iff)

lemma step_not_accepted:
  "\<not> accepted p st (MouseMove cx cy rect now) \<Longrightarrow>
   step p rng st (MouseMove cx cy rect now) = st
   \<or> step p rng st (MouseMove cx cy rect now)
       = st\<lparr>mousePosition := (fl64 (cx - rect_left rect), fl64 (cy - rect_top rect))\<rparr>"
  by (cases "containerRef st")
    (auto simp: accepted_MouseMove step_MouseMove onMouseMove_no_container onMouseMove_rejected)

lemma step_accepted:
  "accepted p st (MouseMove cx cy rect now) \<Longrightarrow>
   step p rng st (MouseMove cx cy rect now) =
     (spawn_loop (images p) rng now (fl64 (cx - rect_left rect)) (fl64 (cy - rect_top rect)) 0
        (if rng (randPos st) > 0.8 then 2 else 1)
        (st\<lparr>mousePosition := (fl64 (cx - rect_left rect), fl64 (cy - rect_top rect)),
           imageCounter := now, randPos := Suc (randPos st)\<rparr>))
      \<lparr>timers := filter (\<lambda>t. Some (handle t) \<noteq> cleanupTimer st) (timers st)
                  @ [\<lparr>handle = nextHandle st, due = clock st + 500, callback = Retire\<rparr>],
        nextHandle := Suc (nextHandle st),
        cleanupTimer := Some (nextHandle st)\<rparr>"
  by (simp add: accepted_MouseMove step_MouseMove onMouseMove_accepted)

lemma step_touch_idle:
  "images p = [] \<or> \<not> containerRef st \<or> touches = [] \<Longrightarrow>
   step p rng st (TouchMove touches rect now) = st"
  by (auto simp: step_TouchMove onTouch_def)

lemma step_touch_spawn:
  "images p \<noteq> [] \<Longrightarrow> containerRef st \<Longrightarrow>
   step p rng st (TouchMove ((cx, cy) # rest) rect now) =
     st\<lparr>randPos := randPos st + 6,
        floatingImages := slice_last 3 (floatingImages st) @
          [mkImage (''touch-'' @ intToString now)
             (array_get (images p) \<lfloor>rng (randPos st) * real (length (images p))\<rfloor>)
             (fst (getRandomImageProps rng (fl64 (cx - rect_left rect)) (fl64 (cy - rect_top rect))
                (st\<lparr>randPos := Suc (randPos st)\<rparr>)))]\<rparr>"
  by (simp add: step_TouchMove onTouch_Cons)

lemma run_Nil: "run p rng [] st = st"
  by (simp add: run_def)

lemma run_Cons: "run p rng (e # es) st = run p rng es (step p rng st e)"
  by (simp add: run_def)

lemma run_append: "run p rng (es @ es') st = run p rng es' (run p rng es st)"
  by (simp add: run_def)

lemma run_snoc: "run p rng (es @ [e]) st = step p rng (run p rng es st) e"
  by (simp add: run_def)

lemma run_invariant:
  assumes "I st" and "\<And>s e. I s \<Longrightarrow> I (step p rng s e)"
  shows "I (run p rng es st)"
  using assms(1)
proof (induction es arbitrary: st)
  case Nil
  then show ?case by (simp add: run_Nil)
next
  case (Cons e es)
  then show ?case by (simp add: run_Cons assms(2))
qed



text \<open>The shapes the state after one event can take.\<close>

lemma step_shape:
  obtains (idle) "step p rng st e = st"
  | (moved) m where "step p rng st e = st\<lparr>mousePosition := m\<rparr>"
  | (spawned) cx cy rect now s4 where "e = MouseMove cx cy rect now" and "accepted p st e"
      and "imageCounter s4 = now" and "containerRef s4 = containerRef st"
      and "clock s4 = clock st"
      and "step p rng st e =
             s4\<lparr>timers := filter (\<lambda>t. Some (handle t) \<noteq> cleanupTimer st) (timers st)
                        @ [\<lparr>handle = nextHandle st, due = clock st + 500, callback = Retire\<rparr>],
                nextHandle := Suc (nextHandle st),
                cleanupTimer := Some (nextHandle st)\<rparr>"
  | (left) "e = MouseLeave" and "images p \<noteq> []"
      and "step p rng st e =
             st\<lparr>timers := timers st
                        @ [\<lparr>handle = nextHandle st, due = clock st + 200, callback = ClearAll\<rparr>],
                nextHandle := Suc (nextHandle st)\<rparr>"
  | (touched) new where
      "step p rng st e =
         st\<lparr>randPos := randPos st + 6,
            floatingImages := slice_last 3 (floatingImages st) @ [new]\<rparr>"
  | (waited) d where "e = Elapse d" and "step p rng st e = elapse d st"
proof (cases e)
  case (MouseMove cx cy rect now)
  show ?thesis
  proof (cases "accepted p st e")
    case False
    with step_not_accepted[of p st cx cy rect now rng] MouseMove idle moved show ?thesis
      by auto
  next
    case True
    let ?s4 = "spawn_loop (images p) rng now (fl64 (cx - rect_left rect)) (fl64 (cy - rect_top rect)) 0
        (if rng (randPos st) > 0.8 then 2 else 1)
        (st\<lparr>mousePosition := (fl64 (cx - rect_left rect), fl64 (cy - rect_top rect)),
           imageCounter := now, randPos := Suc (randPos st)\<rparr>)"
    have "imageCounter ?s4 = now" "containerRef ?s4 = containerRef st" "clock ?s4 = clock st"
      by (simp_all add: spawn_loop_frame)
    with True MouseMove spawned[of cx cy rect now ?s4] step_accepted[of p st cx cy rect now rng]
    show ?thesis by simp
  qed
next
  case MouseLeave
  with idle left show ?thesis
    by (cases "images p = []") (simp_all add: step_MouseLeave onMouseLeave_eq)
next
  case (TouchMove touches rect now)
  show ?thesis
  proof (cases "images p = [] \<or> \<not> containerRef st \<or> touches = []")
    case True
    with idle TouchMove show ?thesis
      by (simp add: step_touch_idle)
  next
    case False
    then obtain cx cy rest where t: "touches = (cx, cy) # rest"
      by (cases touches) auto
    with False TouchMove touched show ?thesis
      by (simp add: step_touch_spawn)
  qed
next
  case (Elapse d)
  with waited show ?thesis
    by (simp add: step_Elapse)
qed

lemma containerRef_step: "containerRef (step p rng st e) = containerRef st"
  by (cases rule: step_shape[of p rng st e]) (simp_all add: elapse_frame)

lemma containerRef_run: "containerRef (run p rng es st) = containerRef st"
  by (rule run_invariant[where I = "\<lambda>s. containerRef s = containerRef st"])
     (simp_all add: containerRef_step)

lemma containerRef_reachable: "containerRef (run p rng es (mount p)) = (images p \<noteq> [])"
  by (simp add: containerRef_run mount_def)

lemma imageCounter_step_mono: "imageCounter st \<le> imageCounter (step p rng st e)"
  by (cases rule: step_shape[of p rng st e])
     (simp_all add: elapse_frame accepted_MouseMove)

lemma imageCounter_run_mono: "c \<le> imageCounter st \<Longrightarrow> c \<le> imageCounter (run p rng es st)"
proof (rule run_invariant[where I = "\<lambda>s. c \<le> imageCounter s"])
  fix s :: state and e assume "c \<le> imageCounter s"
  with imageCounter_step_mono[of s p rng e] show "c \<le> imageCounter (step p rng s e)"
    by simp
qed

lemma imageCounter_accepted:
  "accepted p st (MouseMove cx cy rect now) \<Longrightarrow>
   imageCounter (step p rng st (MouseMove cx cy rect now)) = now"
  by (simp add: step_accepted spawn_loop_frame)

lemma clock_step: "clock (step p rng st e) = clock st + elapsed [e]"
proof (cases e)
  case (Elapse d)
  then show ?thesis
    by (simp add: step_Elapse elapse_frame)
next
  case (MouseMove cx cy rect now)
  then show ?thesis
    by (cases rule: step_shape[of p rng st e]) simp_all
next
  case MouseLeave
  then show ?thesis
    by (cases rule: step_shape[of p rng st e]) simp_all
next
  case (TouchMove touches rect now)
  then show ?thesis
    by (cases rule: step_shape[of p rng st e]) simp_all
qed

lemma handle_bound_step:
  "(\<forall>h. cleanupTimer st = Some h \<longrightarrow> h < nextHandle st) \<Longrightarrow>
   (\<forall>h. cleanupTimer (step p rng st e) = Some h \<longrightarrow> h < nextHandle (step p rng st e))"
  by (cases rule: step_shape[of p rng st e]) (auto simp: elapse_frame)

lemma handle_bound_reachable:
  "cleanupTimer (run p rng es (mount p)) = Some h \<Longrightarrow> h < nextHandle (run p rng es (mount p))"
proof -
  have "\<forall>h. cleanupTimer (run p rng es (mount p)) = Some h
            \<longrightarrow> h < nextHandle (run p rng es (mount p))"
    by (rule run_invariant[where I = "\<lambda>s. \<forall>h. cleanupTimer s = Some h \<longrightarrow> h < nextHandle s"])
       (simp_all add: mount_def handle_bound_step)
  then show "cleanupTimer (run p rng es (mount p)) = Some h \<Longrightarrow> h < nextHandle (run p rng es (mount p))"
    by simp
qed

section \<open>Banner: the empty image list\<close>

text \<open>
  Claim C6. Given \<open>images = []\<close>, Banner renders nothing: the component returns \<open>null\<close>
  in every state, so there is no surface that could receive a pointer or touch event, those
  events leave the state as it is, and the list of floating images stays empty over every
  sequence of events.
\<close>

theorem C6_empty_images_render_nothing:
  assumes "images p = []"
  shows "render p st = None
         \<and> floatingImages (run p rng es (mount p)) = []
         \<and> step p rng st (MouseMove cx cy rect now) = st
         \<and> step p rng st MouseLeave = st
         \<and> step p rng st (TouchMove touches rect now) = st"
proof -
  have "floatingImages (run p rng es (mount p)) = []"
  proof (rule run_invariant[where I = "\<lambda>s. floatingImages s = []"])
    show "floatingImages (mount p) = []"
      by (simp add: mount_def)
  next
    fix s :: state and e
    assume "floatingImages s = []"
    with assms elapse_set[of _ s] show "floatingImages (step p rng s e) = []"
      by (cases e) (simp_all add: step_MouseMove step_MouseLeave step_touch_idle step_Elapse)
  qed
  with assms show ?thesis
    by (simp add: render_None_iff step_MouseMove step_MouseLeave step_touch_idle)
qed

text \<open>The statement at a concrete empty banner.\<close>

theorem C6_empty_images_witness:
  "images \<lparr>images = [], altText = None, autoRotateMs = None\<rparr> = []
   \<and> render \<lparr>images = [], altText = None, autoRotateMs = None\<rparr>
        (mount \<lparr>images = [], altText = None, autoRotateMs = None\<rparr>) = None
   \<and> floatingImages (run \<lparr>images = [], altText = None, autoRotateMs = None\<rparr> (\<lambda>n. 1 / 2)
        [MouseMove 5 5 \<lparr>rect_left = 0, rect_top = 0\<rparr> 1000,
         TouchMove [(1, 1)] \<lparr>rect_left = 0, rect_top = 0\<rparr> 1100, Elapse 10]
        (mount \<lparr>images = [], altText = None, autoRotateMs = None\<rparr>)) = []"
  using C6_empty_images_render_nothing[of "\<lparr>images = [], altText = None, autoRotateMs = None\<rparr>"
      "mount \<lparr>images = [], altText = None, autoRotateMs = None\<rparr>" "\<lambda>n. 1 / 2"
      "[MouseMove 5 5 \<lparr>rect_left = 0, rect_top = 0\<rparr> 1000,
         TouchMove [(1, 1)] \<lparr>rect_left = 0, rect_top = 0\<rparr> 1100, Elapse 10]"]
  by simp

section \<open>Banner: the unused prop\<close>

text \<open>
  Claim C9. Two banners whose props differ only in \<open>autoRotateMs\<close> mount in the same
  state, render the same output in every state, and make the same transition on every
  event, hence reach the same state after every sequence of events with the same random
  draws: \<open>autoRotateMs\<close> is never consumed.
\<close>

theorem C9_autoRotateMs_not_consumed:
  assumes "images p' = images p" and "altText p' = altText p"
  shows "mount p' = mount p
         \<and> render p' st = render p st
         \<and> step p' rng st e = step p rng st e
         \<and> run p' rng es st = run p rng es st"
proof -
  have r: "render p' s = render p s" for s
    by (simp add: render_def Let_def assms)
  have "step p' rng s ev = step p rng s ev" for s ev
    by (cases ev)
       (simp_all add: step_MouseMove step_MouseLeave step_TouchMove step_Elapse assms)
  then have "step p' rng = step p rng"
    by (intro ext)
  then show ?thesis
    by (simp add: run_def r mount_def assms)
qed

text \<open>The statement for a banner with and without the prop.\<close>

theorem C9_autoRotateMs_witness:
  "images \<lparr>images = [''a.png''], altText = None, autoRotateMs = Some 1\<rparr>
     = images \<lparr>images = [''a.png''], altText = None, autoRotateMs = None\<rparr>
   \<and> altText \<lparr>images = [''a.png''], altText = None, autoRotateMs = Some 1\<rparr>
     = altText \<lparr>images = [''a.png''], altText = None, autoRotateMs = None\<rparr>
   \<and> render \<lparr>images = [''a.png''], altText = None, autoRotateMs = Some 1\<rparr>
       (mount \<lparr>images = [''a.png''], altText = None, autoRotateMs = None\<rparr>)
     = render \<lparr>images = [''a.png''], altText = None, autoRotateMs = None\<rparr>
         (mount \<lparr>images = [''a.png''], altText = None, autoRotateMs = None\<rparr>)
   \<and> run \<lparr>images = [''a.png''], altText = None, autoRotateMs = Some 1\<rparr> (\<lambda>n. 1 / 2)
       [MouseMove 5 5 \<lparr>rect_left = 0, rect_top = 0\<rparr> 1000, Elapse 600]
       (mount \<lparr>images = [''a.png''], altText = None, autoRotateMs = Some 1\<rparr>)
     = run \<lparr>images = [''a.png''], altText = None, autoRotateMs = None\<rparr> (\<lambda>n. 1 / 2)
         [MouseMove 5 5 \<lparr>rect_left = 0, rect_top = 0\<rparr> 1000, Elapse 600]
         (mount \<lparr>images = [''a.png''], altText = None, autoRotateMs = None\<rparr>)"
  using C9_autoRotateMs_not_consumed[where
      p' = "\<lparr>images = [''a.png''], altText = None, autoRotateMs = Some 1\<rparr>"
      and p = "\<lparr>images = [''a.png''], altText = None, autoRotateMs = None\<rparr>"
      and st = "mount \<lparr>images = [''a.png''], altText = None, autoRotateMs = None\<rparr>"
      and rng = "\<lambda>n. 1 / 2"
      and es = "[MouseMove 5 5 \<lparr>rect_left = 0, rect_top = 0\<rparr> 1000, Elapse 600]"]
  by simp

section \<open>Banner: the throttle\<close>

text \<open>
  Claim C2. If a pointer-move is accepted with timestamp \<open>t\<close>, then after any further
  events a pointer-move whose timestamp is below \<open>t + 80\<close> is not accepted, and it
  leaves the list of floating images unchanged. The timestamps need not increase.
\<close>

theorem C2_throttle:
  assumes "accepted p s1 (MouseMove cx cy rect t)"
    and "t' < t + 80"
  shows "\<not> accepted p (run p rng es (step p rng s1 (MouseMove cx cy rect t)))
             (MouseMove cx' cy' rect' t')
         \<and> floatingImages
             (step p rng (run p rng es (step p rng s1 (MouseMove cx cy rect t)))
                (MouseMove cx' cy' rect' t'))
           = floatingImages (run p rng es (step p rng s1 (MouseMove cx cy rect t)))"
proof -
  let ?s2 = "run p rng es (step p rng s1 (MouseMove cx cy rect t))"
  have "t \<le> imageCounter ?s2"
    using assms(1) by (intro imageCounter_run_mono) (simp add: imageCounter_accepted)
  with assms(2) have rej: "\<not> accepted p ?s2 (MouseMove cx' cy' rect' t')"
    by (simp add: accepted_MouseMove)
  from step_not_accepted[OF rej, of rng] rej show ?thesis
    by auto
qed

text \<open>A pointer-move at 1000 is accepted after mounting; one at 1079 is not.\<close>

theorem C2_throttle_witness:
  "accepted \<lparr>images = [''a.png''], altText = None, autoRotateMs = None\<rparr>
     (mount \<lparr>images = [''a.png''], altText = None, autoRotateMs = None\<rparr>)
     (MouseMove 5 5 \<lparr>rect_left = 0, rect_top = 0\<rparr> 1000)
   \<and> (1079 :: int) < 1000 + 80
   \<and> \<not> accepted \<lparr>images = [''a.png''], altText = None, autoRotateMs = None\<rparr>
       (run \<lparr>images = [''a.png''], altText = None, autoRotateMs = None\<rparr> (\<lambda>n. 1 / 2)
          [Elapse 79]
          (step \<lparr>images = [''a.png''], altText = None, autoRotateMs = None\<rparr> (\<lambda>n. 1 / 2)
             (mount \<lparr>images = [''a.png''], altText = None, autoRotateMs = None\<rparr>)
             (MouseMove 5 5 \<lparr>rect_left = 0, rect_top = 0\<rparr> 1000)))
       (MouseMove 9 9 \<lparr>rect_left = 0, rect_top = 0\<rparr> 1079)"
  using C2_throttle[of "\<lparr>images = [''a.png''], altText = None, autoRotateMs = None\<rparr>"
      "mount \<lparr>images = [''a.png''], altText = None, autoRotateMs = None\<rparr>"
      5 5 "\<lparr>rect_left = 0, rect_top = 0\<rparr>" 1000 1079 "\<lambda>n. 1 / 2" "[Elapse 79]"
      9 9 "\<lparr>rect_left = 0, rect_top = 0\<rparr>"]
  by (simp add: accepted_MouseMove mount_def)

section \<open>Banner: the source of a spawned image\<close>






section \<open>Banner: placement of a spawned image\<close>






section \<open>Banner: touch input\<close>

lemma touch_only_length:
  "list_all touch_only es \<Longrightarrow> length (floatingImages st) \<le> 4 \<Longrightarrow>
   length (floatingImages (run p rng es st)) \<le> 4"
proof (induction es arbitrary: st)
  case Nil
  then show ?case by (simp add: run_Nil)
next
  case (Cons e es)
  from Cons.prems(1) have e: "touch_only e" and es: "list_all touch_only es"
    by simp_all
  have "length (floatingImages (step p rng st e)) \<le> 4"
  proof (cases rule: step_shape[of p rng st e])
    case idle
    with Cons.prems(2) show ?thesis by simp
  next
    case (moved m)
    with Cons.prems(2) show ?thesis by simp
  next
    case (spawned cx cy rect now s4)
    with e show ?thesis by simp
  next
    case left
    with e show ?thesis by simp
  next
    case (touched new)
    then show ?thesis by (simp add: length_slice_last)
  next
    case (waited d)
    with Cons.prems(2) elapse_length[of d st] show ?thesis by simp
  qed
  with Cons.IH[OF es] show ?case
    by (simp add: run_Cons)
qed

text \<open>
  Claim C4 says that every touch-move on a banner with images appends exactly one new
  image. The handler reads \<open>e.touches[0].clientX\<close> unguarded: a touch-move whose
  \<open>touches\<close> list is empty throws, before any state is written, and appends nothing. Here
  it follows a touch-move that spawned one image, and the list keeps its one entry.
\<close>

theorem C4_touch_without_point_counterexample:
  "images \<lparr>images = [''a.png''], altText = None, autoRotateMs = None\<rparr> \<noteq> []
   \<and> onTouch [''a.png''] (\<lambda>n. 1 / 2) [] \<lparr>rect_left = 0, rect_top = 0\<rparr> 1001
         (step \<lparr>images = [''a.png''], altText = None, autoRotateMs = None\<rparr> (\<lambda>n. 1 / 2)
            (mount \<lparr>images = [''a.png''], altText = None, autoRotateMs = None\<rparr>)
            (TouchMove [(1, 1)] \<lparr>rect_left = 0, rect_top = 0\<rparr> 1000))
       = Inl TypeError
   \<and> length (floatingImages
         (step \<lparr>images = [''a.png''], altText = None, autoRotateMs = None\<rparr> (\<lambda>n. 1 / 2)
            (mount \<lparr>images = [''a.png''], altText = None, autoRotateMs = None\<rparr>)
            (TouchMove [(1, 1)] \<lparr>rect_left = 0, rect_top = 0\<rparr> 1000))) = 1
   \<and> length (floatingImages
         (step \<lparr>images = [''a.png''], altText = None, autoRotateMs = None\<rparr> (\<lambda>n. 1 / 2)
            (step \<lparr>images = [''a.png''], altText = None, autoRotateMs = None\<rparr> (\<lambda>n. 1 / 2)
               (mount \<lparr>images = [''a.png''], altText = None, autoRotateMs = None\<rparr>)
               (TouchMove [(1, 1)] \<lparr>rect_left = 0, rect_top = 0\<rparr> 1000))
            (TouchMove [] \<lparr>rect_left = 0, rect_top = 0\<rparr> 1001))) = 1"
proof -
  let ?p = "\<lparr>images = [''a.png''], altText = None, autoRotateMs = None\<rparr>"
  let ?r = "\<lparr>rect_left = 0, rect_top = 0\<rparr>"
  let ?s1 = "step ?p (\<lambda>n. 1 / 2) (mount ?p) (TouchMove [(1, 1)] ?r 1000)"
  have ne: "images ?p \<noteq> []"
    by simp
  have c0: "containerRef (mount ?p)"
    by (simp add: mount_def)
  then have c1: "containerRef ?s1"
    by (simp add: containerRef_step)
  have f0: "floatingImages (mount ?p) = []"
    by (simp add: mount_def)
  have l1: "length (floatingImages ?s1) = 1"
    by (simp add: step_touch_spawn[OF ne c0] f0 slice_last_Nil)
  have thrown: "onTouch [''a.png''] (\<lambda>n. 1 / 2) [] ?r 1001 ?s1 = Inl TypeError"
    using c1 by (simp add: onTouch_def)
  have "step ?p (\<lambda>n. 1 / 2) ?s1 (TouchMove [] ?r 1001) = ?s1"
    by (rule step_touch_idle) simp
  with l1 thrown ne show ?thesis
    by (simp only:) simp
qed

text \<open>
  Claim C4, amended. On a banner with a nonempty image list, in the state reached after
  any events whatever and for any timestamp, a touch-move that carries a touch point
  appends exactly one new image, with a \<open>touch-\<close> id, to the last three images of the
  list: there is no throttle. A touch-move without a touch point leaves the state as it
  is. The list has at most 4 entries after a touch-move with a touch point, and at most
  4 entries after every sequence of touch-moves from mounting, with any time passing
  between them.
\<close>

theorem C4_touch_spawns_one:
  assumes "images p \<noteq> []"
  shows "(\<exists>new. img_id new = ''touch-'' @ intToString now
            \<and> floatingImages
                (step p rng (run p rng es (mount p)) (TouchMove ((cx, cy) # rest) rect now))
              = slice_last 3 (floatingImages (run p rng es (mount p))) @ [new])
         \<and> length (floatingImages
              (step p rng (run p rng es (mount p)) (TouchMove ((cx, cy) # rest) rect now)))
             \<le> 4
         \<and> step p rng (run p rng es (mount p)) (TouchMove [] rect now) = run p rng es (mount p)
         \<and> (list_all touch_only es' \<longrightarrow>
               length (floatingImages (run p rng es' (mount p))) \<le> 4)"
proof -
  have c: "containerRef (run p rng es (mount p))"
    using assms by (simp add: containerRef_reachable)
  have "length (floatingImages (mount p)) \<le> 4"
    by (simp add: mount_def)
  then have "list_all touch_only es' \<longrightarrow>
               length (floatingImages (run p rng es' (mount p))) \<le> 4"
    by (simp add: touch_only_length)
  then show ?thesis
    by (simp add: step_touch_spawn[OF assms c] step_touch_idle mkImage_def length_slice_last)
qed

text \<open>
  Two touch-moves one millisecond apart, right after an accepted pointer-move: both spawn.
\<close>

theorem C4_touch_spawns_one_witness:
  "images \<lparr>images = [''a.png''], altText = None, autoRotateMs = None\<rparr> \<noteq> []
   \<and> list_all touch_only
       [TouchMove [(1, 1)] \<lparr>rect_left = 0, rect_top = 0\<rparr> 1000, Elapse 1,
        TouchMove [(2, 2)] \<lparr>rect_left = 0, rect_top = 0\<rparr> 1001]
   \<and> (\<exists>new. img_id new = ''touch-'' @ intToString 1002
         \<and> floatingImages
             (step \<lparr>images = [''a.png''], altText = None, autoRotateMs = None\<rparr> (\<lambda>n. 1 / 2)
                (run \<lparr>images = [''a.png''], altText = None, autoRotateMs = None\<rparr> (\<lambda>n. 1 / 2)
                   [MouseMove 5 5 \<lparr>rect_left = 0, rect_top = 0\<rparr> 1000,
                    TouchMove [(1, 1)] \<lparr>rect_left = 0, rect_top = 0\<rparr> 1001]
                   (mount \<lparr>images = [''a.png''], altText = None, autoRotateMs = None\<rparr>))
                (TouchMove [(2, 2)] \<lparr>rect_left = 0, rect_top = 0\<rparr> 1002))
           = slice_last 3
               (floatingImages
                  (run \<lparr>images = [''a.png''], altText = None, autoRotateMs = None\<rparr>
                     (\<lambda>n. 1 / 2)
                     [MouseMove 5 5 \<lparr>rect_left = 0, rect_top = 0\<rparr> 1000,
                      TouchMove [(1, 1)] \<lparr>rect_left = 0, rect_top = 0\<rparr> 1001]
                     (mount \<lparr>images = [''a.png''], altText = None, autoRotateMs = None\<rparr>)))
             @ [new])
   \<and> length (floatingImages
        (run \<lparr>images = [''a.png''], altText = None, autoRotateMs = None\<rparr> (\<lambda>n. 1 / 2)
           [TouchMove [(1, 1)] \<lparr>rect_left = 0, rect_top = 0\<rparr> 1000, Elapse 1,
            TouchMove [(2, 2)] \<lparr>rect_left = 0, rect_top = 0\<rparr> 1001]
           (mount \<lparr>images = [''a.png''], altText = None, autoRotateMs = None\<rparr>))) \<le> 4"
  using C4_touch_spawns_one[where
      p = "\<lparr>images = [''a.png''], altText = None, autoRotateMs = None\<rparr>"
      and now = 1002 and rng = "\<lambda>n. 1 / 2"
      and es = "[MouseMove 5 5 \<lparr>rect_left = 0, rect_top = 0\<rparr> 1000,
                 TouchMove [(1, 1)] \<lparr>rect_left = 0, rect_top = 0\<rparr> 1001]"
      and cx = 2 and cy = 2 and rest = "[]" and rect = "\<lparr>rect_left = 0, rect_top = 0\<rparr>"
      and es' = "[TouchMove [(1, 1)] \<lparr>rect_left = 0, rect_top = 0\<rparr> 1000, Elapse 1,
                  TouchMove [(2, 2)] \<lparr>rect_left = 0, rect_top = 0\<rparr> 1001]"]
  by simp

section \<open>Banner: bounds on the list of floating images\<close>






section \<open>Banner: the clear after the pointer leaves\<close>

text \<open>
  A pending timer whose handle is not the one in \<open>cleanupTimer\<close> stays pending over every
  event until its time has come: no handler can name it.
\<close>

lemma pending_step:
  assumes "tm \<in> set (timers st)" and "handle tm < nextHandle st"
    and "cleanupTimer st \<noteq> Some (handle tm)"
    and "clock st + elapsed [e] < due tm"
  shows "tm \<in> set (timers (step p rng st e)) \<and> handle tm < nextHandle (step p rng st e)
         \<and> cleanupTimer (step p rng st e) \<noteq> Some (handle tm)"
proof (cases rule: step_shape[of p rng st e])
  case idle
  with assms show ?thesis by simp
next
  case (moved m)
  with assms show ?thesis by simp
next
  case (spawned cx cy rect now s4)
  with assms show ?thesis by auto
next
  case left
  with assms show ?thesis by auto
next
  case (touched new)
  with assms show ?thesis by simp
next
  case (waited d)
  with assms show ?thesis by (simp add: elapse_frame)
qed

lemma pending_run:
  assumes "tm \<in> set (timers st)" and "handle tm < nextHandle st"
    and "cleanupTimer st \<noteq> Some (handle tm)"
    and "clock st + elapsed es < due tm"
  shows "tm \<in> set (timers (run p rng es st))
         \<and> cleanupTimer (run p rng es st) \<noteq> Some (handle tm)
         \<and> clock (run p rng es st) = clock st + elapsed es"
  using assms
proof (induction es arbitrary: st)
  case Nil
  then show ?case by (simp add: run_Nil)
next
  case (Cons e es)
  have split: "elapsed (e # es) = elapsed [e] + elapsed es"
    by (cases e) simp_all
  with Cons.prems(4) have now: "clock st + elapsed [e] < due tm"
    by simp
  from pending_step[OF Cons.prems(1,2,3) now, of p rng]
  have 1: "tm \<in> set (timers (step p rng st e))"
    and 2: "handle tm < nextHandle (step p rng st e)"
    and 3: "cleanupTimer (step p rng st e) \<noteq> Some (handle tm)"
    by blast+
  from Cons.prems(4) split have 4: "clock (step p rng st e) + elapsed es < due tm"
    by (simp add: clock_step)
  from Cons.IH[OF 1 2 3 4] split show ?case
    by (simp add: run_Cons clock_step)
qed

text \<open>
  Claim C5. Let the pointer leave a banner with a nonempty image list, in the state reached
  after any events whatever. The handler sets a timer that is due 200 ms later and clears
  the list. Whatever events follow while less than 200 ms have passed (pointer-moves,
  touch-moves, the pointer leaving again), the timer stays pending, and the cleanup run at
  unmounting would not clear it either; when the time reaches 200 ms after the leave, the
  list of floating images is empty.
\<close>

theorem C5_clear_after_leave:
  assumes "images p \<noteq> []" and "elapsed es < 200" and "200 \<le> elapsed es + d"
  shows "\<lparr>handle = nextHandle (run p rng es0 (mount p)),
            due = clock (run p rng es0 (mount p)) + 200,
            callback = ClearAll\<rparr>
           \<in> set (timers (run p rng (es0 @ [MouseLeave] @ es) (mount p)))
         \<and> \<lparr>handle = nextHandle (run p rng es0 (mount p)),
              due = clock (run p rng es0 (mount p)) + 200,
              callback = ClearAll\<rparr>
             \<in> set (timers (onUnmount (run p rng (es0 @ [MouseLeave] @ es) (mount p))))
         \<and> floatingImages (run p rng (es0 @ [MouseLeave] @ es @ [Elapse d]) (mount p)) = []"
proof -
  let ?s0 = "run p rng es0 (mount p)"
  let ?tm = "\<lparr>handle = nextHandle ?s0, due = clock ?s0 + 200, callback = ClearAll\<rparr>"
  let ?s1 = "step p rng ?s0 MouseLeave"
  let ?s2 = "run p rng es ?s1"
  have s1: "?s1 = ?s0\<lparr>timers := timers ?s0 @ [?tm], nextHandle := Suc (nextHandle ?s0)\<rparr>"
    using assms(1) by (simp add: step_MouseLeave onMouseLeave_eq)
  have "cleanupTimer ?s0 \<noteq> Some (nextHandle ?s0)"
    using handle_bound_reachable[of p rng es0 "nextHandle ?s0"] by auto
  with s1 have "tm \<in> set (timers ?s1)" "handle tm < nextHandle ?s1"
    "cleanupTimer ?s1 \<noteq> Some (handle tm)" "clock ?s1 + elapsed es < due tm"
    if "tm = ?tm" for tm
    using that assms(2) by simp_all
  from pending_run[OF this, of ?tm p rng]
  have pend: "?tm \<in> set (timers ?s2)"
    and other: "cleanupTimer ?s2 \<noteq> Some (nextHandle ?s0)"
    and clk: "clock ?s2 = clock ?s0 + elapsed es"
    using s1 by simp_all
  from pend other have unmount: "?tm \<in> set (timers (onUnmount ?s2))"
    by (cases "cleanupTimer ?s2") (auto simp: onUnmount_def clearTimeout_def)
  from clk assms(3) have "due ?tm \<le> clock ?s2 + d"
    by simp
  with pend have "floatingImages (elapse d ?s2) = []"
    by (intro elapse_ClearAll[of ?tm]) simp_all
  with pend unmount show ?thesis
    by (simp add: run_append run_Cons run_Nil step_Elapse)
qed

text \<open>
  The pointer leaves after an accepted pointer-move; a pointer-move and a touch-move follow
  within the next 150 ms; 50 ms later the list is empty.
\<close>

theorem C5_clear_after_leave_witness:
  "images \<lparr>images = [''a.png''], altText = None, autoRotateMs = None\<rparr> \<noteq> []
   \<and> elapsed [Elapse 100, MouseMove 7 7 \<lparr>rect_left = 0, rect_top = 0\<rparr> 1100,
               TouchMove [(1, 1)] \<lparr>rect_left = 0, rect_top = 0\<rparr> 1120, Elapse 50] < 200
   \<and> 200 \<le> elapsed [Elapse 100, MouseMove 7 7 \<lparr>rect_left = 0, rect_top = 0\<rparr> 1100,
                     TouchMove [(1, 1)] \<lparr>rect_left = 0, rect_top = 0\<rparr> 1120, Elapse 50] + 50
   \<and> floatingImages
       (run \<lparr>images = [''a.png''], altText = None, autoRotateMs = None\<rparr> (\<lambda>n. 1 / 2)
          ([MouseMove 5 5 \<lparr>rect_left = 0, rect_top = 0\<rparr> 1000] @ [MouseLeave]
           @ [Elapse 100, MouseMove 7 7 \<lparr>rect_left = 0, rect_top = 0\<rparr> 1100,
              TouchMove [(1, 1)] \<lparr>rect_left = 0, rect_top = 0\<rparr> 1120, Elapse 50]
           @ [Elapse 50])
          (mount \<lparr>images = [''a.png''], altText = None, autoRotateMs = None\<rparr>)) = []"
  using C5_clear_after_leave[where
      p = "\<lparr>images = [''a.png''], altText = None, autoRotateMs = None\<rparr>"
      and rng = "\<lambda>n. 1 / 2"
      and ?es0.0 = "[MouseMove 5 5 \<lparr>rect_left = 0, rect_top = 0\<rparr> 1000]"
      and es = "[Elapse 100, MouseMove 7 7 \<lparr>rect_left = 0, rect_top = 0\<rparr> 1100,
                 TouchMove [(1, 1)] \<lparr>rect_left = 0, rect_top = 0\<rparr> 1120, Elapse 50]"
      and d = 50]
  by simp

section \<open>Banner: ids of floating images\<close>

lemma digit_char_inj:
  assumes "d < 10" and "d' < 10" and "digit_char d = digit_char d'"
  shows "d = d'"
proof -
  have "distinct ''0123456789''"
    by simp
  moreover have "d < length ''0123456789''" "d' < length ''0123456789''"
    using assms(1,2) by simp_all
  ultimately show ?thesis
    using assms(3) unfolding digit_char_def by (simp only: nth_eq_iff_index_eq)
qed

lemma digit_char_not_dash: "d < 10 \<Longrightarrow> digit_char d \<noteq> CHR ''-''"
proof -
  assume "d < 10"
  then have "''0123456789'' ! d \<in> set ''0123456789''"
    by (intro nth_mem) simp
  then show ?thesis
    unfolding digit_char_def by auto
qed

lemma digits_nonempty: "digits n \<noteq> []"
  by (subst digits.simps) simp

lemma digits_no_dash: "CHR ''-'' \<notin> set (digits n)"
proof (induction n rule: digits.induct)
  case (1 n)
  show ?case
  proof (cases "n < 10")
    case True
    then show ?thesis
      using digit_char_not_dash[of n] by (subst digits.simps) auto
  next
    case False
    with 1 digit_char_not_dash[of "n mod 10"] show ?thesis
      by (subst digits.simps) auto
  qed
qed

lemma digits_inj: "digits n = digits m \<Longrightarrow> n = m"
proof (induction n arbitrary: m rule: digits.induct)
  case (1 n)
  show ?case
  proof (cases "n < 10")
    case n: True
    show ?thesis
    proof (cases "m < 10")
      case True
      with n "1.prems" show ?thesis
        by (simp add: digits.simps[of n] digits.simps[of m] digit_char_inj)
    next
      case False
      with n "1.prems" digits_nonempty[of "m div 10"] show ?thesis
        by (simp add: digits.simps[of n] digits.simps[of m])
    qed
  next
    case n: False
    show ?thesis
    proof (cases "m < 10")
      case True
      with n "1.prems" digits_nonempty[of "n div 10"] show ?thesis
        by (simp add: digits.simps[of n] digits.simps[of m])
    next
      case False
      with n "1.prems" have eq: "digits (n div 10) = digits (m div 10)"
        and c: "digit_char (n mod 10) = digit_char (m mod 10)"
        by (simp_all add: digits.simps[of n] digits.simps[of m])
      from "1.IH"[OF n eq] have "n div 10 = m div 10" .
      moreover from c have "n mod 10 = m mod 10"
        by (intro digit_char_inj) simp_all
      ultimately show ?thesis
        by (metis div_mult_mod_eq)
    qed
  qed
qed

lemma split_at_dash:
  assumes "xs @ CHR ''-'' # ys = xs' @ CHR ''-'' # ys'"
    and "CHR ''-'' \<notin> set xs" and "CHR ''-'' \<notin> set xs'"
  shows "xs = xs' \<and> ys = ys'"
proof -
  have "takeWhile (\<lambda>c. c \<noteq> CHR ''-'') (xs @ CHR ''-'' # ys) = xs"
    using assms(2) by (subst takeWhile_tail) auto
  moreover have "takeWhile (\<lambda>c. c \<noteq> CHR ''-'') (xs' @ CHR ''-'' # ys') = xs'"
    using assms(3) by (subst takeWhile_tail) auto
  ultimately have "xs = xs'"
    using assms(1) by simp
  with assms(1) show ?thesis
    by simp
qed

lemma pointer_id_inj:
  assumes "0 \<le> t" and "0 \<le> t'" and "pointer_id t i = pointer_id t' i'"
  shows "t = t' \<and> i = i'"
proof -
  from assms have "digits (nat t) @ CHR ''-'' # digits i = digits (nat t') @ CHR ''-'' # digits i'"
    by (simp add: pointer_id_def intToString_def)
  from split_at_dash[OF this digits_no_dash digits_no_dash]
  have "nat t = nat t'" and "i = i'"
    by (simp_all add: digits_inj)
  with assms(1,2) show ?thesis
    by simp
qed

lemma map_slice_last: "map f (slice_last n xs) = slice_last n (map f xs)"
  by (simp add: slice_last_def drop_map)

lemma distinct_slice_last: "distinct xs \<Longrightarrow> distinct (slice_last n xs)"
  by (simp add: slice_last_def)

lemma spawn_loop_ids:
  "map img_id (floatingImages (spawn_loop imgs rng now x y i n st)) =
     (if n \<le> i then map img_id (floatingImages st)
      else slice_last 12 (map img_id (floatingImages st) @ map (pointer_id now) [i..<n]))"
proof (induction "n - i" arbitrary: i st)
  case 0
  then show ?case
    by (simp add: spawn_loop.simps[of imgs rng now x y i n st])
next
  case (Suc k)
  let ?st1 = "spawn_one imgs rng now x y i st"
  from Suc.hyps(2) have lt: "i < n" and k: "k = n - Suc i"
    by simp_all
  have step: "spawn_loop imgs rng now x y i n st = spawn_loop imgs rng now x y (Suc i) n ?st1"
    using lt by (simp add: spawn_loop.simps[of imgs rng now x y i n st])
  have ids1: "map img_id (floatingImages ?st1)
                = slice_last 12 (map img_id (floatingImages st) @ [pointer_id now i])"
    by (simp add: spawn_one_eq map_slice_last mkImage_def pointer_id_def)
  have upt: "[i..<n] = i # [Suc i..<n]"
    using lt by (simp add: upt_conv_Cons)
  show ?case
  proof (cases "n \<le> Suc i")
    case True
    with lt have "[Suc i..<n] = []"
      by simp
    with True lt Suc.hyps(1)[OF k, of ?st1] show ?thesis
      by (simp add: step ids1 upt)
  next
    case False
    with lt Suc.hyps(1)[OF k, of ?st1]
      slice_last_append_slice[of 12 "map img_id (floatingImages st) @ [pointer_id now i]"
        "map (pointer_id now) [Suc i..<n]"]
    show ?thesis
      by (simp add: step ids1 upt)
  qed
qed

lemma fire_all_drop: "\<exists>k. floatingImages (fire_all tms st) = drop k (floatingImages st)"
proof (induction tms arbitrary: st)
  case Nil
  show ?case by (intro exI[of _ 0]) simp
next
  case (Cons tm tms)
  obtain j where j: "floatingImages (fire (callback tm) st) = drop j (floatingImages st)"
  proof (cases "callback tm")
    case Retire
    show ?thesis
    proof (cases "length (floatingImages st) \<le> 6")
      case True
      with Retire that[of 0] show ?thesis by (simp add: slice_last_def)
    next
      case False
      with Retire that[of "length (floatingImages st) - 6"] show ?thesis
        by (simp add: slice_last_def)
    qed
  next
    case ClearAll
    with that[of "length (floatingImages st)"] show ?thesis by simp
  qed
  from Cons[of "fire (callback tm) st"] obtain k where
    "floatingImages (fire_all tms (fire (callback tm) st))
       = drop k (floatingImages (fire (callback tm) st))"
    by blast
  with j show ?case
    by (intro exI[of _ "j + k"]) (simp add: add.commute)
qed

lemma elapse_drop: "\<exists>k. floatingImages (elapse d st) = drop k (floatingImages st)"
  using fire_all_drop[of _ "st\<lparr>clock := clock st + d,
      timers := filter (\<lambda>tm. \<not> due tm \<le> clock st + d) (timers st)\<rparr>"]
  by (simp add: elapse_def Let_def)


text \<open>
  Without touch-moves the ids in the list are pairwise different: every id carries the
  timestamp of an accepted pointer-move, which is above the timestamps accepted before, and
  the index within its burst.
\<close>

lemma pointer_ids_step:
  assumes e: "no_touch e" and c: "0 \<le> imageCounter s"
    and d: "distinct (map img_id (floatingImages s))"
    and f: "\<forall>ident \<in> set (map img_id (floatingImages s)).
              \<exists>t j. 0 \<le> t \<and> t \<le> imageCounter s \<and> ident = pointer_id t j"
  shows "0 \<le> imageCounter (step p rng s e)
         \<and> distinct (map img_id (floatingImages (step p rng s e)))
         \<and> (\<forall>ident \<in> set (map img_id (floatingImages (step p rng s e))).
               \<exists>t j. 0 \<le> t \<and> t \<le> imageCounter (step p rng s e)
                 \<and> ident = pointer_id t j)"
proof (cases e)
  case (TouchMove touches rect now)
  with e show ?thesis by simp
next
  case MouseLeave
  with c d f show ?thesis
    by (simp add: step_MouseLeave onMouseLeave_eq)
next
  case (Elapse k)
  from elapse_drop[of k s] obtain m where
    m: "floatingImages (elapse k s) = drop m (floatingImages s)"
    by blast
  have sub: "set (map img_id (drop m (floatingImages s))) \<subseteq> set (map img_id (floatingImages s))"
    unfolding drop_map[symmetric] by (rule set_drop_subset)
  have dd: "distinct (map img_id (drop m (floatingImages s)))"
    unfolding drop_map[symmetric] using d by (rule distinct_drop)
  have st: "step p rng s e = elapse k s" and ic: "imageCounter (elapse k s) = imageCounter s"
    by (simp_all add: Elapse step_Elapse elapse_frame)
  from f sub have "\<forall>ident \<in> set (map img_id (drop m (floatingImages s))).
              \<exists>t j. 0 \<le> t \<and> t \<le> imageCounter s \<and> ident = pointer_id t j"
    by blast
  with c dd show ?thesis
    unfolding st ic m by blast
next
  case (MouseMove cx cy rect now)
  show ?thesis
  proof (cases "accepted p s e")
    case False
    from step_not_accepted[of p s cx cy rect now rng] False
    have "imageCounter (step p rng s e) = imageCounter s"
      and "floatingImages (step p rng s e) = floatingImages s"
      unfolding MouseMove by auto
    with c d f show ?thesis
      by simp
  next
    case True
    let ?n = "if rng (randPos s) > 0.8 then 2 else 1 :: nat"
    let ?old = "map img_id (floatingImages s)"
    let ?new = "map (pointer_id now) [0..<?n]"
    let ?s' = "step p rng s e"
    from True c have now: "imageCounter s + 80 \<le> now" "0 \<le> now"
      by (simp_all add: MouseMove accepted_MouseMove)
    have cnt: "imageCounter ?s' = now"
      using True by (simp add: MouseMove imageCounter_accepted)
    have ids: "map img_id (floatingImages ?s') = slice_last 12 (?old @ ?new)"
      using True by (simp add: MouseMove step_accepted spawn_loop_ids)
    have "inj_on (pointer_id now) (set [0..<?n])"
    proof (rule inj_onI)
      fix a b assume "pointer_id now a = pointer_id now b"
      with pointer_id_inj[OF now(2) now(2), of a b] show "a = b"
        by blast
    qed
    then have dn: "distinct ?new"
      by (simp only: distinct_map distinct_upt)
    have disj: "set ?old \<inter> set ?new = {}"
    proof (rule ccontr)
      assume "set ?old \<inter> set ?new \<noteq> {}"
      then obtain ident where o: "ident \<in> set ?old" and n: "ident \<in> set ?new"
        by blast
      from f o obtain t j where t: "0 \<le> t" "t \<le> imageCounter s" "ident = pointer_id t j"
        by blast
      from n obtain j' where j': "ident = pointer_id now j'"
        unfolding set_map by blast
      from t(3) j' have "pointer_id t j = pointer_id now j'"
        by (rule subst)
      from pointer_id_inj[OF t(1) now(2) this] have "t = now"
        by blast
      with t(2) now(1) show False
        by linarith
    qed
    from d dn disj have "distinct (?old @ ?new)"
      by (simp only: distinct_append)
    then have 1: "distinct (map img_id (floatingImages ?s'))"
      unfolding ids by (rule distinct_slice_last)
    have 2: "\<exists>t j. 0 \<le> t \<and> t \<le> imageCounter ?s' \<and> ident = pointer_id t j"
      if "ident \<in> set (map img_id (floatingImages ?s'))" for ident
    proof -
      from that set_slice_last[of 12 "?old @ ?new"]
      have "ident \<in> set (?old @ ?new)"
        unfolding ids by blast
      then have "ident \<in> set ?old \<or> ident \<in> set ?new"
        unfolding set_append by blast
      then show ?thesis
      proof
        assume "ident \<in> set ?old"
        with f obtain t j where "0 \<le> t" "t \<le> imageCounter s" "ident = pointer_id t j"
          by blast
        with now(1) have "0 \<le> t \<and> t \<le> now \<and> ident = pointer_id t j"
          by linarith
        then show ?thesis
          unfolding cnt by blast
      next
        assume "ident \<in> set ?new"
        then obtain j where "ident = pointer_id now j"
          unfolding set_map by blast
        with now(2) have "0 \<le> now \<and> now \<le> now \<and> ident = pointer_id now j"
          by simp
        then show ?thesis
          unfolding cnt by blast
      qed
    qed
    from now(2) have "0 \<le> imageCounter ?s'"
      unfolding cnt .
    with 1 2 show ?thesis
      by blast
  qed
qed

lemma pointer_ids_run:
  assumes "list_all no_touch es" and "0 \<le> imageCounter s"
    and "distinct (map img_id (floatingImages s))"
    and "\<forall>ident \<in> set (map img_id (floatingImages s)).
           \<exists>t j. 0 \<le> t \<and> t \<le> imageCounter s \<and> ident = pointer_id t j"
  shows "distinct (map img_id (floatingImages (run p rng es s)))"
  using assms
proof (induction es arbitrary: s)
  case Nil
  then show ?case by (simp add: run_Nil)
next
  case (Cons e es)
  from Cons.prems(1) have e: "no_touch e" and es: "list_all no_touch es"
    by simp_all
  from pointer_ids_step[OF e Cons.prems(2,3,4), of p rng]
  have "0 \<le> imageCounter (step p rng s e)"
    and "distinct (map img_id (floatingImages (step p rng s e)))"
    and "\<forall>ident \<in> set (map img_id (floatingImages (step p rng s e))).
           \<exists>t j. 0 \<le> t \<and> t \<le> imageCounter (step p rng s e) \<and> ident = pointer_id t j"
    by blast+
  from Cons.IH[OF es this] show ?case
    by (simp only: run_Cons)
qed

lemma pointer_ids_distinct:
  "list_all no_touch es \<Longrightarrow> distinct (map img_id (floatingImages (run p rng es (mount p))))"
  by (rule pointer_ids_run) (simp_all add: mount_def)

lemma intToString_1000: "intToString 1000 = ''1000''"
  by (simp add: intToString_def digit_char_def digits.simps[of "numeral k" for k]
        digits.simps[of "Suc 0"] digits.simps[of 0])

text \<open>
  Claim C8 says that the ids of the live floating images are pairwise different for every
  interleaving of pointer-moves and touch-moves. Without touch-moves they are, as shown
  above. The id of a touch-spawned image is \<open>touch-\<close> followed by the value of
  \<open>Date.now\<close> alone, and touch-moves are not throttled: two touch-moves that read the
  same millisecond leave two live images with the same id.
\<close>

theorem C8_touch_ids_collide:
  "map img_id (floatingImages
     (run \<lparr>images = [''a.png''], altText = None, autoRotateMs = None\<rparr> (\<lambda>n. 1 / 2)
        [TouchMove [(10, 10)] \<lparr>rect_left = 0, rect_top = 0\<rparr> 1000,
         TouchMove [(12, 11)] \<lparr>rect_left = 0, rect_top = 0\<rparr> 1000]
        (mount \<lparr>images = [''a.png''], altText = None, autoRotateMs = None\<rparr>)))
     = [''touch-1000'', ''touch-1000'']
   \<and> \<not> distinct (map img_id (floatingImages
     (run \<lparr>images = [''a.png''], altText = None, autoRotateMs = None\<rparr> (\<lambda>n. 1 / 2)
        [TouchMove [(10, 10)] \<lparr>rect_left = 0, rect_top = 0\<rparr> 1000,
         TouchMove [(12, 11)] \<lparr>rect_left = 0, rect_top = 0\<rparr> 1000]
        (mount \<lparr>images = [''a.png''], altText = None, autoRotateMs = None\<rparr>))))"
proof -
  let ?p = "\<lparr>images = [''a.png''], altText = None, autoRotateMs = None\<rparr>"
  let ?r = "\<lparr>rect_left = 0, rect_top = 0\<rparr>"
  let ?s1 = "step ?p (\<lambda>n. 1 / 2) (mount ?p) (TouchMove [(10, 10)] ?r 1000)"
  have ne: "images ?p \<noteq> []"
    by simp
  have c0: "containerRef (mount ?p)"
    by (simp add: mount_def)
  then have c1: "containerRef ?s1"
    by (simp add: containerRef_step)
  have f0: "floatingImages (mount ?p) = []"
    by (simp add: mount_def)
  have ids: "map img_id (floatingImages ?s1) = [''touch-'' @ intToString 1000]"
    by (simp add: step_touch_spawn[OF ne c0] f0 slice_last_Nil mkImage_def)
  have "length (map img_id (floatingImages ?s1)) = 1"
    by (simp only: ids list.size)
  then have "slice_last 3 (floatingImages ?s1) = floatingImages ?s1"
    by (simp add: slice_last_def)
  with ids have "map img_id (floatingImages (step ?p (\<lambda>n. 1 / 2) ?s1 (TouchMove [(12, 11)] ?r 1000)))
               = [''touch-'' @ intToString 1000, ''touch-'' @ intToString 1000]"
    by (simp add: step_touch_spawn[OF ne c1] mkImage_def)
  then show ?thesis
    by (simp add: run_Cons run_Nil intToString_1000)
qed

section \<open>PlaceholderImage: defaults and pass-through\<close>

text \<open>
  Claim C7. Called with no arguments, PlaceholderImage uses width 800, height 600, colour
  3498db and text Image; for all inputs the declared width and height of the graphic are the
  given width and height and its label is the given text. The result is a function of the
  props alone.
\<close>

theorem C7_placeholder_defaults_and_passthrough:
  "svg_width (PlaceholderImage f no_arguments) = 800
   \<and> svg_height (PlaceholderImage f no_arguments) = 600
   \<and> rect_fill (PlaceholderImage f no_arguments) = ''#3498db''
   \<and> text_children (PlaceholderImage f no_arguments) = ''Image''
   \<and> svg_width (PlaceholderImage f props) = (case ph_width props of None \<Rightarrow> 800 | Some w \<Rightarrow> w)
   \<and> svg_height (PlaceholderImage f props) = (case ph_height props of None \<Rightarrow> 600 | Some h \<Rightarrow> h)
   \<and> text_children (PlaceholderImage f props) = (case ph_text props of None \<Rightarrow> ''Image'' | Some t \<Rightarrow> t)
   \<and> svg_width (PlaceholderImage f (props\<lparr>ph_width := Some w\<rparr>)) = w
   \<and> svg_height (PlaceholderImage f (props\<lparr>ph_height := Some h\<rparr>)) = h
   \<and> text_children (PlaceholderImage f (props\<lparr>ph_text := Some t\<rparr>)) = t"
  by (simp add: PlaceholderImage_def no_arguments_def default_to_def Let_def)

end
